theory Spec2Isabelle
  imports Main
begin

section \<open>Data model of \<open>src/contexts/CartContext.tsx\<close>\<close>

text \<open>
  The type \<open>Item\<close> is imported by the source from \<open>@/types\<close>. The cart logic reads three of
  its fields: \<open>id\<close>, the optional list \<open>sizes\<close> and the optional list \<open>categoryIds\<close>
  (the pricing fields are read by \<open>totalAmount\<close> only, which is not modelled here: it is
  floating-point arithmetic over an external resolver). The field \<open>id\<close> is called
  \<open>item_id\<close>, since \<open>id\<close> is the identity function of HOL. An optional field or argument
  (\<open>undefined\<close> in the source) is \<open>None\<close>.
\<close>

record Item =
  item_id :: string
  sizes :: "string list option"
  categoryIds :: "string list option"

text \<open>
  \<open>interface CartItem\<close>. A \<open>number\<close> that holds a quantity is an \<open>int\<close>; a
  \<open>Record<string, string>\<close> is an association list.
\<close>

type_synonym variants = "(string \<times> string) list"

record CartItem =
  product :: Item
  quantity :: int
  selectedVariants :: "variants option"
  selectedSize :: "string option"

text \<open>
  The entry \<open>'cart'\<close> of \<open>localStorage\<close>: absent (\<open>None\<close>, where \<open>getItem\<close> returns
  \<open>null\<close>), the serialisation of a sequence of cart items, or a string that
  \<open>JSON.parse\<close> rejects.
\<close>

datatype stored = Saved "CartItem list" | Malformed

text \<open>
  The state of the provider: the two \<open>useState\<close> cells and the storage entry.
\<close>

record CartState =
  items :: "CartItem list"
  directPurchaseItem :: "CartItem option"
  storage :: "stored option"

section \<open>JavaScript helpers\<close>

text \<open>\<open>Array.prototype.findIndex\<close>; the source's \<open>-1\<close> is \<open>None\<close>.\<close>

fun findIndex :: "('a \<Rightarrow> bool) \<Rightarrow> 'a list \<Rightarrow> nat option" where
  "findIndex P [] = None"
| "findIndex P (x # xs) = (if P x then Some 0 else map_option Suc (findIndex P xs))"

text \<open>\<open>product.sizes && product.sizes.length > 0\<close>\<close>

definition hasSizes :: "Item \<Rightarrow> bool" where
  "hasSizes p = (case sizes p of None \<Rightarrow> False | Some ss \<Rightarrow> length ss > 0)"

text \<open>Truthiness of an optional string: \<open>undefined\<close> and the empty string are falsy.\<close>

definition truthy :: "string option \<Rightarrow> bool" where
  "truthy s = (case s of None \<Rightarrow> False | Some str \<Rightarrow> str \<noteq> [])"

text \<open>A default parameter value, \<open>quantity: number = 1\<close>.\<close>

definition default_arg :: "'a \<Rightarrow> 'a option \<Rightarrow> 'a" where
  "default_arg d a = (case a of None \<Rightarrow> d | Some v \<Rightarrow> v)"

text \<open>\<open>quantity || 1\<close> on a number: zero is falsy.\<close>

definition or_one :: "int \<Rightarrow> int" where
  "or_one n = (if n = 0 then 1 else n)"

section \<open>Loading and saving\<close>

text \<open>The initialiser of \<open>useState<CartItem[]>\<close> (lines 34 to 46).\<close>

definition load_cart :: "stored option \<Rightarrow> CartItem list" where
  "load_cart s = (case s of None \<Rightarrow> [] | Some Malformed \<Rightarrow> [] | Some (Saved xs) \<Rightarrow> xs)"

text \<open>
  The effect of lines 49 to 51, \<open>localStorage.setItem('cart', JSON.stringify(items))\<close>. It
  runs after every render in which \<open>items\<close> is a new array.
\<close>

definition save_effect :: "CartState \<Rightarrow> CartState" where
  "save_effect st = st\<lparr>storage := Some (Saved (items st))\<rparr>"

text \<open>
  \<open>setItems\<close> with an updater function, which is applied once to the previous array.
  Every updater of this file returns a fresh array (\<open>filter\<close>, \<open>map\<close> or a spread),
  so the render that follows runs the effect.
\<close>

definition setItems :: "(CartItem list \<Rightarrow> CartItem list) \<Rightarrow> CartState \<Rightarrow> CartState" where
  "setItems upd st = save_effect (st\<lparr>items := upd (items st)\<rparr>)"

text \<open>The provider after its first render, over a given storage.\<close>

definition mount :: "stored option \<Rightarrow> CartState" where
  "mount s = save_effect \<lparr>items = load_cart s, directPurchaseItem = None, storage = s\<rparr>"

section \<open>The operations\<close>

subsection \<open>addItem (lines 53 to 77)\<close>

text \<open>The predicate given to \<open>findIndex\<close>.\<close>

definition addItem_match :: "Item \<Rightarrow> string option \<Rightarrow> CartItem \<Rightarrow> bool" where
  "addItem_match p selSize item =
     (if item_id (product item) \<noteq> item_id p then False
      else if hasSizes p then selectedSize item = selSize
      else True)"

definition addItem_upd ::
  "Item \<Rightarrow> int option \<Rightarrow> variants option \<Rightarrow> string option \<Rightarrow> CartItem list \<Rightarrow> CartItem list" where
  "addItem_upd p quantityArg vars selSize prevItems =
     (let qty = default_arg 1 quantityArg in
      case findIndex (addItem_match p selSize) prevItems of
        Some i \<Rightarrow> prevItems[i := (prevItems ! i)\<lparr>quantity := quantity (prevItems ! i) + qty\<rparr>]
      | None \<Rightarrow> prevItems @
          [\<lparr>product = p, quantity = qty, selectedVariants = vars, selectedSize = selSize\<rparr>])"

definition addItem ::
  "Item \<Rightarrow> int option \<Rightarrow> variants option \<Rightarrow> string option \<Rightarrow> CartState \<Rightarrow> CartState" where
  "addItem p quantityArg vars selSize = setItems (addItem_upd p quantityArg vars selSize)"

subsection \<open>removeItem (lines 79 to 81)\<close>

definition removeItem_upd :: "string \<Rightarrow> CartItem list \<Rightarrow> CartItem list" where
  "removeItem_upd productId prevItems =
     filter (\<lambda>item. item_id (product item) \<noteq> productId) prevItems"

definition removeItem :: "string \<Rightarrow> CartState \<Rightarrow> CartState" where
  "removeItem productId = setItems (removeItem_upd productId)"

subsection \<open>updateQuantity (lines 83 to 94)\<close>

definition updateQuantity_upd :: "string \<Rightarrow> int \<Rightarrow> CartItem list \<Rightarrow> CartItem list" where
  "updateQuantity_upd productId qty prevItems =
     map (\<lambda>item. if item_id (product item) = productId then item\<lparr>quantity := qty\<rparr> else item)
       prevItems"

definition updateQuantity :: "string \<Rightarrow> int \<Rightarrow> CartState \<Rightarrow> CartState" where
  "updateQuantity productId qty st =
     (if qty \<le> 0 then removeItem productId st
      else setItems (updateQuantity_upd productId qty) st)"

subsection \<open>updateItemSize (lines 96 to 126)\<close>

text \<open>
  The callback of \<open>map\<close>. The source finds \<open>existingItem\<close> with \<open>prevItems.find\<close> and
  compares it with the current element by reference (\<open>existingItem !== item\<close>). No array
  of this module holds one object twice (every element is a fresh literal, a fresh spread
  or the element of the same position of the previous array), so two elements are the same
  object exactly when their positions are equal: the model finds the position and compares
  positions.
\<close>

definition updateItemSize_step ::
  "string \<Rightarrow> string \<Rightarrow> CartItem list \<Rightarrow> CartItem \<times> nat \<Rightarrow> CartItem" where
  "updateItemSize_step productId selSize prevItems = (\<lambda>(item, index).
     if item_id (product item) = productId then
       (case findIndex (\<lambda>i. item_id (product i) = productId \<and> selectedSize i = Some selSize)
               prevItems of
          Some j \<Rightarrow>
            if j \<noteq> index then
              (prevItems ! j)\<lparr>quantity := quantity (prevItems ! j) + quantity item\<rparr>
            else item\<lparr>selectedSize := Some selSize\<rparr>
        | None \<Rightarrow> item\<lparr>selectedSize := Some selSize\<rparr>)
     else item)"

definition updateItemSize_map :: "string \<Rightarrow> string \<Rightarrow> CartItem list \<Rightarrow> CartItem list" where
  "updateItemSize_map productId selSize prevItems =
     map (updateItemSize_step productId selSize prevItems)
       (zip prevItems [0..<length prevItems])"

text \<open>
  The callback of \<open>filter\<close>: an element stays when it is the first one of \<open>self\<close> with its
  product ID and selected size.
\<close>

definition firstOccurrence :: "CartItem list \<Rightarrow> CartItem list" where
  "firstOccurrence self =
     map fst (filter (\<lambda>(item, index).
         findIndex (\<lambda>i. item_id (product i) = item_id (product item) \<and>
                         selectedSize i = selectedSize item) self = Some index)
       (zip self [0..<length self]))"

definition updateItemSize_upd :: "string \<Rightarrow> string \<Rightarrow> CartItem list \<Rightarrow> CartItem list" where
  "updateItemSize_upd productId selSize prevItems =
     firstOccurrence (updateItemSize_map productId selSize prevItems)"

definition updateItemSize :: "string \<Rightarrow> string \<Rightarrow> CartState \<Rightarrow> CartState" where
  "updateItemSize productId selSize = setItems (updateItemSize_upd productId selSize)"

subsection \<open>clearCart and clearDirectPurchase (lines 128 to 136)\<close>

text \<open>
  \<open>clearCart\<close> queues the two state updates and removes the storage entry at once. The
  new \<open>items\<close> is a fresh array, so the render that follows runs the effect of lines
  49 to 51 on it.
\<close>

definition clearCart :: "CartState \<Rightarrow> CartState" where
  "clearCart st =
     save_effect (st\<lparr>items := [], directPurchaseItem := None, storage := None\<rparr>)"

definition clearDirectPurchase :: "CartState \<Rightarrow> CartState" where
  "clearDirectPurchase st = st\<lparr>directPurchaseItem := None\<rparr>"

subsection \<open>replaceItem (lines 138 to 192)\<close>

text \<open>\<open>prevItems.find(item => item.product.id === oldProductId)\<close>\<close>

definition oldItem_of :: "string \<Rightarrow> CartItem list \<Rightarrow> CartItem option" where
  "oldItem_of oldProductId prevItems =
     find (\<lambda>item. item_id (product item) = oldProductId) prevItems"

text \<open>\<open>oldItem?.quantity || 1\<close>\<close>

definition oldQuantity_of :: "string \<Rightarrow> CartItem list \<Rightarrow> int" where
  "oldQuantity_of oldProductId prevItems =
     (case oldItem_of oldProductId prevItems of None \<Rightarrow> 1 | Some it \<Rightarrow> or_one (quantity it))"

text \<open>
  \<open>oldItem?.product.categoryIds?.some(catId => newProduct.categoryIds?.includes(catId))\<close>:
  every \<open>undefined\<close> on the way is falsy.
\<close>

definition sharesCategory :: "CartItem option \<Rightarrow> Item \<Rightarrow> bool" where
  "sharesCategory oldItem newProduct =
     (case oldItem of None \<Rightarrow> False
      | Some it \<Rightarrow>
          (case categoryIds (product it) of None \<Rightarrow> False
           | Some cs \<Rightarrow>
               list_ex (\<lambda>catId. case categoryIds newProduct of None \<Rightarrow> False
                                 | Some ns \<Rightarrow> catId \<in> set ns) cs))"

definition sameCategoryReplacement :: "string \<Rightarrow> Item \<Rightarrow> CartItem list \<Rightarrow> bool" where
  "sameCategoryReplacement oldProductId newProduct prevItems =
     list_ex (\<lambda>item. item_id (product item) = item_id newProduct \<or>
                     sharesCategory (oldItem_of oldProductId prevItems) newProduct) prevItems"

definition replaceItem_upd ::
  "string \<Rightarrow> Item \<Rightarrow> int option \<Rightarrow> variants option \<Rightarrow> string option \<Rightarrow>
     CartItem list \<Rightarrow> CartItem list" where
  "replaceItem_upd oldProductId newProduct quantityArg vars selSize prevItems =
     (let qty = default_arg 1 quantityArg;
          oldQuantity = oldQuantity_of oldProductId prevItems;
          sameCategory = sameCategoryReplacement oldProductId newProduct prevItems;
          filteredItems = filter (\<lambda>item. item_id (product item) \<noteq> oldProductId) prevItems
      in case findIndex (addItem_match newProduct selSize) filteredItems of
           Some i \<Rightarrow>
             (let existing = filteredItems ! i;
                  updatedQuantity =
                    (if sameCategory then max (quantity existing) oldQuantity
                     else quantity existing + or_one qty)
              in filteredItems[i := existing\<lparr>
                   quantity := updatedQuantity,
                   selectedVariants :=
                     (case vars of Some v \<Rightarrow> Some v | None \<Rightarrow> selectedVariants existing),
                   selectedSize :=
                     (if truthy selSize then selSize else selectedSize existing)\<rparr>])
         | None \<Rightarrow>
             filteredItems @
               [\<lparr>product = newProduct,
                 quantity = (if sameCategory then oldQuantity else or_one qty),
                 selectedVariants = vars,
                 selectedSize = selSize\<rparr>])"

definition replaceItem ::
  "string \<Rightarrow> Item \<Rightarrow> int option \<Rightarrow> variants option \<Rightarrow> string option \<Rightarrow>
     CartState \<Rightarrow> CartState" where
  "replaceItem oldProductId newProduct quantityArg vars selSize =
     setItems (replaceItem_upd oldProductId newProduct quantityArg vars selSize)"

subsection \<open>Derived values and the context value (lines 194 to 237)\<close>

text \<open>\<open>items.reduce((sum, item) => sum + item.quantity, 0)\<close>\<close>

definition itemCount :: "CartItem list \<Rightarrow> int" where
  "itemCount its = foldl (\<lambda>sum item. sum + quantity item) 0 its"

text \<open>
  The value handed to the consumers. While \<open>directPurchaseItem\<close> is set, the five
  mutating accessors are the empty function \<open>() => {}\<close>.
\<close>

definition ctx_items :: "CartState \<Rightarrow> CartItem list" where
  "ctx_items st = (case directPurchaseItem st of Some d \<Rightarrow> [d] | None \<Rightarrow> items st)"

definition ctx_itemCount :: "CartState \<Rightarrow> int" where
  "ctx_itemCount st =
     (case directPurchaseItem st of Some d \<Rightarrow> quantity d | None \<Rightarrow> itemCount (items st))"

definition ctx_addItem ::
  "Item \<Rightarrow> int option \<Rightarrow> variants option \<Rightarrow> string option \<Rightarrow> CartState \<Rightarrow> CartState" where
  "ctx_addItem p quantityArg vars selSize st =
     (case directPurchaseItem st of Some d \<Rightarrow> st
      | None \<Rightarrow> addItem p quantityArg vars selSize st)"

definition ctx_removeItem :: "string \<Rightarrow> CartState \<Rightarrow> CartState" where
  "ctx_removeItem productId st =
     (case directPurchaseItem st of Some d \<Rightarrow> st | None \<Rightarrow> removeItem productId st)"

definition ctx_updateQuantity :: "string \<Rightarrow> int \<Rightarrow> CartState \<Rightarrow> CartState" where
  "ctx_updateQuantity productId qty st =
     (case directPurchaseItem st of Some d \<Rightarrow> st | None \<Rightarrow> updateQuantity productId qty st)"

definition ctx_updateItemSize :: "string \<Rightarrow> string \<Rightarrow> CartState \<Rightarrow> CartState" where
  "ctx_updateItemSize productId selSize st =
     (case directPurchaseItem st of Some d \<Rightarrow> st
      | None \<Rightarrow> updateItemSize productId selSize st)"

definition ctx_replaceItem ::
  "string \<Rightarrow> Item \<Rightarrow> int option \<Rightarrow> variants option \<Rightarrow> string option \<Rightarrow>
     CartState \<Rightarrow> CartState" where
  "ctx_replaceItem oldProductId newProduct quantityArg vars selSize st =
     (case directPurchaseItem st of Some d \<Rightarrow> st
      | None \<Rightarrow> replaceItem oldProductId newProduct quantityArg vars selSize st)"

text \<open>The argument of the exposed \<open>setDirectPurchaseItem\<close>.\<close>

record DirectPurchaseArg =
  dp_product :: Item
  dp_quantity :: int
  dp_variantId :: "string option"
  dp_selectedSize :: "string option"

definition ctx_setDirectPurchaseItem :: "DirectPurchaseArg \<Rightarrow> CartState \<Rightarrow> CartState" where
  "ctx_setDirectPurchaseItem arg st =
     st\<lparr>directPurchaseItem := Some
       \<lparr>product = dp_product arg,
        quantity = dp_quantity arg,
        selectedVariants =
          (case dp_variantId arg of
             Some v \<Rightarrow> if v \<noteq> [] then Some [(''variant'', v)] else None
           | None \<Rightarrow> None),
        selectedSize = (if truthy (dp_variantId arg) then None else dp_selectedSize arg)\<rparr>\<rparr>"

section \<open>Sequences of operations and the identity of a line item\<close>

text \<open>The operations a consumer can call on the context value.\<close>

datatype operation =
    AddItem Item "int option" "variants option" "string option"
  | RemoveItem string
  | UpdateQuantity string int
  | UpdateItemSize string string
  | ReplaceItem string Item "int option" "variants option" "string option"
  | ClearCart
  | SetDirectPurchaseItem DirectPurchaseArg
  | ClearDirectPurchase

fun perform :: "operation \<Rightarrow> CartState \<Rightarrow> CartState" where
  "perform (AddItem p quantityArg vars selSize) st = ctx_addItem p quantityArg vars selSize st"
| "perform (RemoveItem productId) st = ctx_removeItem productId st"
| "perform (UpdateQuantity productId qty) st = ctx_updateQuantity productId qty st"
| "perform (UpdateItemSize productId selSize) st = ctx_updateItemSize productId selSize st"
| "perform (ReplaceItem oldProductId newProduct quantityArg vars selSize) st =
     ctx_replaceItem oldProductId newProduct quantityArg vars selSize st"
| "perform ClearCart st = clearCart st"
| "perform (SetDirectPurchaseItem arg) st = ctx_setDirectPurchaseItem arg st"
| "perform ClearDirectPurchase st = clearDirectPurchase st"

text \<open>Each operation runs to completion before the next one starts.\<close>

definition run :: "operation list \<Rightarrow> CartState \<Rightarrow> CartState" where
  "run ops st = foldl (\<lambda>s op. perform op s) st ops"

text \<open>The products that an operation can put into the cart sequence.\<close>

fun op_products :: "operation \<Rightarrow> Item list" where
  "op_products (AddItem p quantityArg vars selSize) = [p]"
| "op_products (ReplaceItem oldProductId newProduct quantityArg vars selSize) = [newProduct]"
| "op_products other = []"

text \<open>
  The identity of a line item, read on the item itself: the product ID with the selected
  size when the item's product has a non-empty list of sizes, the product ID alone
  otherwise.
\<close>

definition identity_key :: "CartItem \<Rightarrow> string \<times> string option option" where
  "identity_key item =
     (item_id (product item),
      if hasSizes (product item) then Some (selectedSize item) else None)"

definition unique_identities :: "CartItem list \<Rightarrow> bool" where
  "unique_identities its = distinct (map identity_key its)"

text \<open>The pair that the \<open>filter\<close> of \<open>updateItemSize\<close> compares.\<close>

definition size_key :: "CartItem \<Rightarrow> string \<times> string option" where
  "size_key item = (item_id (product item), selectedSize item)"

text \<open>
  The invariant behind the uniqueness of identities: the line items have distinct
  identities, and their products have sizes exactly when \<open>sized\<close> says so of their ID.
\<close>

definition cart_inv :: "(string \<Rightarrow> bool) \<Rightarrow> CartItem list \<Rightarrow> bool" where
  "cart_inv sized its \<longleftrightarrow>
     list_all (\<lambda>item. hasSizes (product item) = sized (item_id (product item))) its
     \<and> unique_identities its"

section \<open>Example data\<close>

definition shirt :: Item where
  "shirt = \<lparr>item_id = ''shirt'', sizes = Some [''M'', ''L''], categoryIds = Some [''apparel'']\<rparr>"

text \<open>A second record of the product \<open>shirt\<close>, loaded without its list of sizes.\<close>

definition shirt_summary :: Item where
  "shirt_summary = \<lparr>item_id = ''shirt'', sizes = None, categoryIds = Some [''apparel'']\<rparr>"

definition mug :: Item where
  "mug = \<lparr>item_id = ''mug'', sizes = None, categoryIds = Some [''kitchen'']\<rparr>"

definition cup :: Item where
  "cup = \<lparr>item_id = ''cup'', sizes = None, categoryIds = Some [''kitchen'', ''gifts'']\<rparr>"

definition line :: "Item \<Rightarrow> int \<Rightarrow> string option \<Rightarrow> CartItem" where
  "line p qty selSize =
     \<lparr>product = p, quantity = qty, selectedVariants = None, selectedSize = selSize\<rparr>"

definition st_direct :: CartState where
  "st_direct = \<lparr>items = [line shirt 2 (Some ''M''), line mug 1 None],
                directPurchaseItem = Some (line cup 4 None),
                storage = Some (Saved [line shirt 2 (Some ''M''), line mug 1 None])\<rparr>"

definition st_two_shirts :: CartState where
  "st_two_shirts = mount (Some (Saved [line shirt 2 (Some ''M''), line mug 1 None, line shirt 1 (Some ''L'')]))"

definition st_one_shirt :: CartState where
  "st_one_shirt = mount (Some (Saved [line shirt 2 (Some ''M'')]))"

definition st_zero :: CartState where
  "st_zero = run [AddItem mug (Some 0) None None, AddItem cup (Some 0) None None] (mount None)"

definition st_mug_cup :: CartState where
  "st_mug_cup = mount (Some (Saved [line mug 3 None, line cup 1 None]))"

definition st_mug3 :: CartState where
  "st_mug3 = mount (Some (Saved [line mug 3 None]))"


definition ops_duplicate :: "operation list" where
  "ops_duplicate =
     [AddItem shirt (Some 1) None (Some ''L''),
      AddItem shirt (Some 1) None (Some ''M''),
      ReplaceItem ''teapot'' shirt_summary None None (Some ''M'')]"

definition ops_sample :: "operation list" where
  "ops_sample =
     [AddItem shirt (Some 1) None (Some ''L''),
      AddItem shirt (Some 2) None (Some ''M''),
      AddItem mug None None None,
      UpdateItemSize ''shirt'' ''M'']"


section \<open>Facts about the helpers\<close>

lemma findIndex_None_iff: "findIndex P xs = None \<longleftrightarrow> (\<forall>x\<in>set xs. \<not> P x)"
  by (induction xs) auto

lemma findIndex_Some_iff:
  "findIndex P xs = Some i \<longleftrightarrow> i < length xs \<and> P (xs ! i) \<and> (\<forall>j<i. \<not> P (xs ! j))"
proof (induction xs arbitrary: i)
  case Nil
  then show ?case by simp
next
  case (Cons x xs)
  show ?case
  proof (cases "P x")
    case True
    then show ?thesis by (cases i) auto
  next
    case False
    show ?thesis
    proof (cases i)
      case 0
      with False show ?thesis by auto
    next
      case (Suc k)
      have "(\<forall>j<Suc k. \<not> P ((x # xs) ! j)) \<longleftrightarrow> (\<forall>j<k. \<not> P (xs ! j))"
        using False by (auto simp: less_Suc_eq_0_disj)
      with False Suc Cons.IH [of k] show ?thesis by auto
    qed
  qed
qed

lemma findIndex_append_Some:
  "findIndex P xs = Some i \<Longrightarrow> findIndex P (xs @ ys) = Some i"
  by (induction xs arbitrary: i) (auto split: if_splits)

lemma findIndex_append_None:
  "findIndex P xs = None \<Longrightarrow>
     findIndex P (xs @ ys) = map_option (\<lambda>j. length xs + j) (findIndex P ys)"
proof (induction xs)
  case Nil
  then show ?case by (simp add: option.map_ident)
next
  case (Cons x xs)
  then have "findIndex P xs = None" and "\<not> P x" by (auto split: if_splits)
  with Cons.IH show ?case by (cases "findIndex P ys") auto
qed

lemma addItem_match_iff:
  "addItem_match p selSize item \<longleftrightarrow>
     item_id (product item) = item_id p \<and> (hasSizes p \<longrightarrow> selectedSize item = selSize)"
  by (simp add: addItem_match_def)

lemma items_setItems: "items (setItems upd st) = upd (items st)"
  by (simp add: setItems_def save_effect_def)

lemma oldQuantity_of_cases:
  "(oldItem_of oldProductId prevItems = None \<longrightarrow> oldQuantity_of oldProductId prevItems = 1)
   \<and> (\<forall>a. oldItem_of oldProductId prevItems = Some a \<longrightarrow>
          oldQuantity_of oldProductId prevItems = (if quantity a = 0 then 1 else quantity a))"
  by (simp add: oldQuantity_of_def or_one_def)

lemma oldItem_of_None_iff:
  "oldItem_of oldProductId prevItems = None \<longleftrightarrow>
     (\<forall>item \<in> set prevItems. item_id (product item) \<noteq> oldProductId)"
  by (auto simp: oldItem_of_def find_None_iff)

lemma found_sameCategory:
  assumes "findIndex (addItem_match newProduct selSize)
             (filter (\<lambda>item. item_id (product item) \<noteq> oldProductId) prevItems) = Some i"
  shows "sameCategoryReplacement oldProductId newProduct prevItems"
proof -
  let ?f = "filter (\<lambda>item. item_id (product item) \<noteq> oldProductId) prevItems"
  from assms have bound: "i < length ?f" and hit: "addItem_match newProduct selSize (?f ! i)"
    by (simp_all add: findIndex_Some_iff)
  from bound have "?f ! i \<in> set ?f" by (rule nth_mem)
  then have "?f ! i \<in> set prevItems" by simp
  moreover from hit have "item_id (product (?f ! i)) = item_id newProduct"
    by (simp add: addItem_match_iff)
  ultimately have "\<exists>item \<in> set prevItems. item_id (product item) = item_id newProduct"
    by blast
  then show ?thesis by (auto simp: sameCategoryReplacement_def list_ex_iff)
qed

lemma sharesCategory_iff:
  "sharesCategory oldItem newProduct \<longleftrightarrow>
     (\<exists>a cs ns. oldItem = Some a \<and> categoryIds (product a) = Some cs
        \<and> categoryIds newProduct = Some ns \<and> set cs \<inter> set ns \<noteq> {})"
  by (auto simp: sharesCategory_def list_ex_iff split: option.splits)

lemma sameCategoryReplacement_iff:
  "sameCategoryReplacement oldProductId newProduct prevItems \<longleftrightarrow>
     (\<exists>item \<in> set prevItems. item_id (product item) = item_id newProduct)
     \<or> sharesCategory (oldItem_of oldProductId prevItems) newProduct"
proof -
  have "\<exists>item. item \<in> set prevItems"
    if "sharesCategory (oldItem_of oldProductId prevItems) newProduct"
  proof -
    from that obtain a where "oldItem_of oldProductId prevItems = Some a"
      by (auto simp: sharesCategory_iff)
    then have "a \<in> set prevItems"
      by (auto simp: oldItem_of_def find_Some_iff)
    then show ?thesis by blast
  qed
  then show ?thesis
    by (auto simp: sameCategoryReplacement_def list_ex_iff)
qed

lemmas cart_eval =
  run_def ctx_addItem_def ctx_removeItem_def ctx_updateQuantity_def ctx_updateItemSize_def
  ctx_replaceItem_def ctx_setDirectPurchaseItem_def clearCart_def clearDirectPurchase_def
  addItem_def removeItem_def updateQuantity_def updateItemSize_def replaceItem_def
  setItems_def save_effect_def mount_def load_cart_def
  addItem_upd_def removeItem_upd_def updateQuantity_upd_def replaceItem_upd_def
  addItem_match_def hasSizes_def truthy_def default_arg_def or_one_def
  oldItem_of_def oldQuantity_of_def sharesCategory_def sameCategoryReplacement_def
  line_def shirt_def shirt_summary_def mug_def cup_def

subsection \<open>First occurrences\<close>

lemma firstOccurrence_alt:
  "firstOccurrence self =
     map fst (filter (\<lambda>(item, index).
         findIndex (\<lambda>i. size_key i = size_key item) self = Some index)
       (zip self [0..<length self]))"
  by (simp add: firstOccurrence_def size_key_def)

lemma findIndex_self_snoc:
  assumes "y \<in> set xs"
  shows "findIndex (\<lambda>i. f i = f y) (xs @ [x]) = findIndex (\<lambda>i. f i = f y) xs"
proof -
  from assms have "findIndex (\<lambda>i. f i = f y) xs \<noteq> None"
    by (auto simp: findIndex_None_iff)
  then obtain j where "findIndex (\<lambda>i. f i = f y) xs = Some j" by blast
  then show ?thesis by (simp add: findIndex_append_Some)
qed

lemma findIndex_last_snoc:
  "findIndex (\<lambda>i. f i = f x) (xs @ [x]) = Some (length xs) \<longleftrightarrow> f x \<notin> f ` set xs"
proof (cases "findIndex (\<lambda>i. f i = f x) xs")
  case None
  then have "f x \<notin> f ` set xs" by (auto simp: findIndex_None_iff)
  with None show ?thesis by (simp add: findIndex_append_None)
next
  case (Some j)
  then have "j < length xs" and "f (xs ! j) = f x" by (simp_all add: findIndex_Some_iff)
  then have "f x \<in> f ` set xs" by (metis imageI nth_mem)
  with Some \<open>j < length xs\<close> show ?thesis by (simp add: findIndex_append_Some)
qed

lemma firstOccurrence_snoc:
  "firstOccurrence (xs @ [x]) =
     firstOccurrence xs @ (if size_key x \<in> size_key ` set xs then [] else [x])"
proof -
  let ?P = "\<lambda>self. \<lambda>(item, index).
         findIndex (\<lambda>i. size_key i = size_key item) self = Some index"
  have z: "zip (xs @ [x]) [0..<length (xs @ [x])] = zip xs [0..<length xs] @ [(x, length xs)]"
    by simp
  have pre: "filter (?P (xs @ [x])) (zip xs [0..<length xs]) =
             filter (?P xs) (zip xs [0..<length xs])"
  proof (rule filter_cong [OF refl])
    fix p assume "p \<in> set (zip xs [0..<length xs])"
    then have "fst p \<in> set xs" by (metis prod.collapse set_zip_leftD)
    then show "?P (xs @ [x]) p = ?P xs p"
      by (cases p) (simp add: findIndex_self_snoc)
  qed
  show ?thesis
    unfolding firstOccurrence_alt z filter_append pre
    by (simp add: findIndex_last_snoc)
qed

lemma firstOccurrence_Nil: "firstOccurrence [] = []"
  by (simp add: firstOccurrence_def)

lemma set_firstOccurrence_subset: "set (firstOccurrence xs) \<subseteq> set xs"
  by (induction xs rule: rev_induct) (auto simp: firstOccurrence_Nil firstOccurrence_snoc)

lemma keys_firstOccurrence: "size_key ` set (firstOccurrence xs) = size_key ` set xs"
  by (induction xs rule: rev_induct) (auto simp: firstOccurrence_Nil firstOccurrence_snoc)

lemma distinct_firstOccurrence: "distinct (map size_key (firstOccurrence xs))"
proof (induction xs rule: rev_induct)
  case Nil
  show ?case by (simp add: firstOccurrence_Nil)
next
  case (snoc x xs)
  then show ?case
    using keys_firstOccurrence [of xs] by (auto simp: firstOccurrence_snoc)
qed



subsection \<open>The transform of updateItemSize\<close>

lemma length_updateItemSize_map:
  "length (updateItemSize_map productId selSize prevItems) = length prevItems"
  by (simp add: updateItemSize_map_def)

lemma nth_updateItemSize_map:
  assumes "i < length prevItems"
  shows "updateItemSize_map productId selSize prevItems ! i =
           updateItemSize_step productId selSize prevItems (prevItems ! i, i)"
  using assms by (simp add: updateItemSize_map_def)

lemma updateItemSize_step_other:
  "item_id (product item) \<noteq> productId \<Longrightarrow>
     updateItemSize_step productId selSize prevItems (item, i) = item"
  by (simp add: updateItemSize_step_def)

lemma updateItemSize_step_same:
  assumes "item_id (product item) = productId"
  shows "item_id (product (updateItemSize_step productId selSize prevItems (item, i))) = productId
       \<and> selectedSize (updateItemSize_step productId selSize prevItems (item, i)) = Some selSize
       \<and> (product (updateItemSize_step productId selSize prevItems (item, i)) = product item
          \<or> (\<exists>y \<in> set prevItems. item_id (product y) = productId
                \<and> product (updateItemSize_step productId selSize prevItems (item, i)) = product y))"
proof (cases "findIndex (\<lambda>i. item_id (product i) = productId \<and> selectedSize i = Some selSize)
               prevItems")
  case None
  with assms show ?thesis by (simp add: updateItemSize_step_def)
next
  case (Some j)
  then have j: "j < length prevItems" "item_id (product (prevItems ! j)) = productId"
    "selectedSize (prevItems ! j) = Some selSize"
    by (simp_all add: findIndex_Some_iff)
  then have "prevItems ! j \<in> set prevItems" by simp
  with j Some assms show ?thesis by (auto simp: updateItemSize_step_def)
qed

lemma updateItemSize_map_cases:
  assumes "x \<in> set (updateItemSize_map productId selSize prevItems)"
  shows "(x \<in> set prevItems \<and> item_id (product x) \<noteq> productId)
       \<or> (item_id (product x) = productId \<and> selectedSize x = Some selSize
          \<and> (\<exists>y \<in> set prevItems. item_id (product y) = productId \<and> product x = product y))"
proof -
  from assms obtain i where i: "i < length prevItems"
    and x: "x = updateItemSize_step productId selSize prevItems (prevItems ! i, i)"
    by (metis in_set_conv_nth length_updateItemSize_map nth_updateItemSize_map)
  from i have mem: "prevItems ! i \<in> set prevItems" by simp
  show ?thesis
  proof (cases "item_id (product (prevItems ! i)) = productId")
    case True
    from updateItemSize_step_same [OF True, of selSize prevItems i] mem True
    show ?thesis unfolding x by blast
  next
    case False
    with mem show ?thesis unfolding x by (simp add: updateItemSize_step_other)
  qed
qed


subsection \<open>The invariant of the cart sequence\<close>

lemma cart_inv_iff:
  "cart_inv sized its \<longleftrightarrow>
     (\<forall>item \<in> set its. hasSizes (product item) = sized (item_id (product item)))
     \<and> distinct (map identity_key its)"
  by (simp add: cart_inv_def unique_identities_def list_all_iff)

lemma cart_inv_Nil: "cart_inv sized []"
  by (simp add: cart_inv_iff)

lemma cart_inv_filter: "cart_inv sized its \<Longrightarrow> cart_inv sized (filter P its)"
  by (simp add: cart_inv_iff distinct_map_filter)

lemma cart_inv_update:
  assumes "cart_inv sized its" and "i < length its"
    and "product x = product (its ! i)" and "identity_key x = identity_key (its ! i)"
  shows "cart_inv sized (its[i := x])"
proof -
  have "map identity_key (its[i := x]) = map identity_key its"
    using assms(2,4) by (simp add: map_update list_update_same_conv)
  moreover have "hasSizes (product y) = sized (item_id (product y))"
    if "y \<in> set (its[i := x])" for y
  proof -
    from that have "y = x \<or> y \<in> set its" using set_update_subset_insert by fastforce
    with assms(1,2,3) show ?thesis by (auto simp: cart_inv_iff)
  qed
  ultimately show ?thesis using assms(1) by (simp add: cart_inv_iff)
qed

lemma cart_inv_append:
  assumes "cart_inv sized its" and "hasSizes (product x) = sized (item_id (product x))"
    and "identity_key x \<notin> identity_key ` set its"
  shows "cart_inv sized (its @ [x])"
  using assms by (auto simp: cart_inv_iff)

lemma unmatched_key_fresh:
  assumes "cart_inv sized its" and "hasSizes p = sized (item_id p)"
    and "\<forall>x \<in> set its. \<not> addItem_match p selSize x"
    and "product new = p" and "selectedSize new = selSize"
  shows "identity_key new \<notin> identity_key ` set its"
proof
  assume "identity_key new \<in> identity_key ` set its"
  then obtain x where x: "x \<in> set its" "identity_key x = identity_key new" by auto
  from x(2) assms(4) have id: "item_id (product x) = item_id p"
    by (simp add: identity_key_def)
  with assms(1,2) x(1) have hs: "hasSizes (product x) = hasSizes p"
    by (simp add: cart_inv_iff)
  from assms(3) x(1) id have "hasSizes p" and "selectedSize x \<noteq> selSize"
    by (auto simp: addItem_match_iff)
  with x(2) hs assms(4,5) show False by (simp add: identity_key_def)
qed

lemma cart_inv_addItem_upd:
  assumes "cart_inv sized its" and "hasSizes p = sized (item_id p)"
  shows "cart_inv sized (addItem_upd p quantityArg vars selSize its)"
proof (cases "findIndex (addItem_match p selSize) its")
  case None
  then have "\<forall>x \<in> set its. \<not> addItem_match p selSize x" by (simp add: findIndex_None_iff)
  from unmatched_key_fresh [OF assms this] assms None show ?thesis
    by (simp add: addItem_upd_def cart_inv_append)
next
  case (Some i)
  then have "i < length its" by (simp add: findIndex_Some_iff)
  with assms(1) Some show ?thesis
    by (simp add: addItem_upd_def cart_inv_update identity_key_def)
qed

lemma cart_inv_updateQuantity_upd:
  assumes "cart_inv sized its"
  shows "cart_inv sized (updateQuantity_upd productId qty its)"
proof -
  let ?f = "\<lambda>item. if item_id (product item) = productId then item\<lparr>quantity := qty\<rparr> else item"
  have k: "identity_key (?f x) = identity_key x" and p: "product (?f x) = product x" for x
    by (simp_all add: identity_key_def)
  have "map identity_key (map ?f its) = map identity_key its"
    unfolding map_map comp_def k ..
  then have d: "distinct (map identity_key (map ?f its))"
    using assms by (simp only: cart_inv_iff)
  have "hasSizes (product y) = sized (item_id (product y))" if "y \<in> set (map ?f its)" for y
  proof -
    from that obtain x where "x \<in> set its" "y = ?f x" by auto
    with assms p [of x] show ?thesis by (simp add: cart_inv_iff)
  qed
  with d show ?thesis
    unfolding updateQuantity_upd_def cart_inv_iff by blast
qed

lemma cart_inv_replaceItem_upd:
  assumes "cart_inv sized its" and "hasSizes p = sized (item_id p)"
  shows "cart_inv sized (replaceItem_upd oldProductId p quantityArg vars selSize its)"
proof -
  let ?f = "filter (\<lambda>item. item_id (product item) \<noteq> oldProductId) its"
  have inv: "cart_inv sized ?f" using assms(1) by (rule cart_inv_filter)
  show ?thesis
  proof (cases "findIndex (addItem_match p selSize) ?f")
    case None
    then have "\<forall>x \<in> set ?f. \<not> addItem_match p selSize x" by (simp add: findIndex_None_iff)
    from unmatched_key_fresh [OF inv assms(2) this] inv assms(2) None show ?thesis
      by (simp add: replaceItem_upd_def Let_def cart_inv_append)
  next
    case (Some i)
    then have i: "i < length ?f" and m: "addItem_match p selSize (?f ! i)"
      by (simp_all add: findIndex_Some_iff)
    from i have "?f ! i \<in> set ?f" by (rule nth_mem)
    with inv have "hasSizes (product (?f ! i)) = sized (item_id (product (?f ! i)))"
      by (simp add: cart_inv_iff)
    with m assms(2) have "hasSizes (product (?f ! i)) = hasSizes p"
      and "hasSizes p \<longrightarrow> selectedSize (?f ! i) = selSize"
      by (simp_all add: addItem_match_iff)
    then have "identity_key ((?f ! i)\<lparr>quantity := q, selectedVariants := v,
          selectedSize := (if truthy selSize then selSize else selectedSize (?f ! i))\<rparr>)
        = identity_key (?f ! i)" for q v
      by (auto simp: identity_key_def)
    with inv i Some show ?thesis
      by (simp add: replaceItem_upd_def Let_def cart_inv_update)
  qed
qed


lemma cart_inv_updateItemSize_upd:
  assumes "cart_inv sized its"
  shows "cart_inv sized (updateItemSize_upd productId selSize its)"
proof -
  let ?m = "updateItemSize_map productId selSize its"
  let ?r = "firstOccurrence ?m"
  have sub: "set ?r \<subseteq> set ?m" by (rule set_firstOccurrence_subset)
  have ok: "hasSizes (product y) = sized (item_id (product y))" if "y \<in> set its" for y
    using assms that by (simp add: cart_inv_iff)
  have agree: "hasSizes (product x) = sized (item_id (product x))" if "x \<in> set ?m" for x
  proof -
    from updateItemSize_map_cases [OF that]
    obtain y where "y \<in> set its" and "product x = product y" by blast
    with ok [of y] show ?thesis by simp
  qed
  have inj: "inj_on identity_key (set its)"
    using assms by (simp add: cart_inv_iff distinct_map)
  have same: "size_key x = size_key y"
    if "x \<in> set ?m" "y \<in> set ?m" "identity_key x = identity_key y" for x y
  proof -
    from that(3) have ids: "item_id (product x) = item_id (product y)"
      by (simp add: identity_key_def)
    show ?thesis
    proof (cases "item_id (product x) = productId")
      case True
      with updateItemSize_map_cases [OF that(1)]
      have "selectedSize x = Some selSize" by blast
      moreover from True ids updateItemSize_map_cases [OF that(2)]
      have "selectedSize y = Some selSize" by metis
      ultimately show ?thesis using ids by (simp add: size_key_def)
    next
      case False
      with updateItemSize_map_cases [OF that(1)] have "x \<in> set its" by blast
      moreover from False ids updateItemSize_map_cases [OF that(2)]
      have "y \<in> set its" by metis
      ultimately have "x = y" using inj that(3) by (meson inj_onD)
      then show ?thesis by simp
    qed
  qed
  have "distinct ?r \<and> inj_on size_key (set ?r)"
    using distinct_firstOccurrence [of ?m] by (simp add: distinct_map)
  moreover have "inj_on identity_key (set ?r)"
  proof (rule inj_onI)
    fix x y assume a: "x \<in> set ?r" "y \<in> set ?r" "identity_key x = identity_key y"
    with sub same have "size_key x = size_key y" by blast
    with a(1,2) calculation show "x = y" by (auto dest: inj_onD)
  qed
  ultimately have "distinct (map identity_key ?r)" by (simp add: distinct_map)
  with sub agree show ?thesis
    unfolding updateItemSize_upd_def cart_inv_iff by blast
qed

lemma cart_inv_perform:
  assumes "cart_inv sized (items st)"
    and "\<forall>p \<in> set (op_products op). hasSizes p = sized (item_id p)"
  shows "cart_inv sized (items (perform op st))"
proof (cases op)
  case (AddItem p quantityArg vars selSize)
  with assms show ?thesis
    by (cases "directPurchaseItem st")
       (simp_all add: ctx_addItem_def addItem_def items_setItems cart_inv_addItem_upd)
next
  case (RemoveItem productId)
  with assms show ?thesis
    by (cases "directPurchaseItem st")
       (simp_all add: ctx_removeItem_def removeItem_def items_setItems removeItem_upd_def
          cart_inv_filter)
next
  case (UpdateQuantity productId qty)
  with assms show ?thesis
    by (cases "directPurchaseItem st")
       (simp_all add: ctx_updateQuantity_def updateQuantity_def removeItem_def items_setItems
          removeItem_upd_def cart_inv_filter cart_inv_updateQuantity_upd)
next
  case (UpdateItemSize productId selSize)
  with assms show ?thesis
    by (cases "directPurchaseItem st")
       (simp_all add: ctx_updateItemSize_def updateItemSize_def items_setItems
          cart_inv_updateItemSize_upd)
next
  case (ReplaceItem oldProductId newProduct quantityArg vars selSize)
  with assms show ?thesis
    by (cases "directPurchaseItem st")
       (simp_all add: ctx_replaceItem_def replaceItem_def items_setItems
          cart_inv_replaceItem_upd)
next
  case ClearCart
  then show ?thesis by (simp add: clearCart_def save_effect_def cart_inv_Nil)
next
  case (SetDirectPurchaseItem arg)
  with assms show ?thesis by (simp add: ctx_setDirectPurchaseItem_def)
next
  case ClearDirectPurchase
  with assms show ?thesis by (simp add: clearDirectPurchase_def)
qed

lemma cart_inv_run:
  assumes "cart_inv sized (items st)"
    and "\<forall>op \<in> set ops. \<forall>p \<in> set (op_products op). hasSizes p = sized (item_id p)"
  shows "cart_inv sized (items (run ops st))"
  using assms
proof (induction ops arbitrary: st)
  case Nil
  then show ?case by (simp add: run_def)
next
  case (Cons op ops)
  from Cons.prems have "cart_inv sized (items (perform op st))"
    by (simp add: cart_inv_perform)
  with Cons.prems Cons.IH [of "perform op st"] show ?case
    by (simp add: run_def)
qed

lemma ctx_addItem_normal:
  assumes "directPurchaseItem st = None"
  shows "items (ctx_addItem p quantityArg vars selSize st) =
           addItem_upd p quantityArg vars selSize (items st)"
    and "directPurchaseItem (ctx_addItem p quantityArg vars selSize st) = None"
  using assms by (simp_all add: ctx_addItem_def addItem_def setItems_def save_effect_def)

lemma ctx_replaceItem_normal:
  assumes "directPurchaseItem st = None"
  shows "items (ctx_replaceItem oldProductId p quantityArg vars selSize st) =
           replaceItem_upd oldProductId p quantityArg vars selSize (items st)"
    and "directPurchaseItem (ctx_replaceItem oldProductId p quantityArg vars selSize st) = None"
  using assms by (simp_all add: ctx_replaceItem_def replaceItem_def setItems_def save_effect_def)

lemma ctx_updateItemSize_normal:
  assumes "directPurchaseItem st = None"
  shows "items (ctx_updateItemSize productId selSize st) =
           updateItemSize_upd productId selSize (items st)"
    and "directPurchaseItem (ctx_updateItemSize productId selSize st) = None"
  using assms
  by (simp_all add: ctx_updateItemSize_def updateItemSize_def setItems_def save_effect_def)

lemma mount_None: "items (mount None) = []" "directPurchaseItem (mount None) = None"
  by (simp_all add: mount_def save_effect_def load_cart_def)

lemma run_Cons: "run (op # ops) st = run ops (perform op st)"
  by (simp add: run_def)

lemma run_Nil: "run [] st = st"
  by (simp add: run_def)

section \<open>clearCart and the persisted record\<close>

text \<open>
  C1. The claim: after \<open>clearCart()\<close> completes, with its persistence side effects, the
  persisted record is absent. In the code, \<open>clearCart\<close> removes the entry, and the effect
  that follows the change of \<open>items\<close> writes it again: from every state, the entry then
  holds the serialised empty sequence, and is not absent.
\<close>

theorem clearCart_persists_empty_sequence:
  "storage (clearCart st) = Some (Saved [])
   \<and> storage (clearCart st) \<noteq> None
   \<and> mount (storage (clearCart st)) = clearCart st"
  by (simp add: clearCart_def save_effect_def mount_def load_cart_def)

section \<open>The direct-purchase override\<close>

text \<open>
  C3. Whenever a direct-purchase item is set, the exposed \<open>addItem\<close>, \<open>removeItem\<close>,
  \<open>updateQuantity\<close>, \<open>updateItemSize\<close> and \<open>replaceItem\<close> change nothing (the cart
  sequence in particular), the exposed list of items is the one-element list of the
  direct-purchase item, and \<open>itemCount\<close> is its quantity, whatever the cart holds.
  \<open>clearCart\<close>, \<open>clearDirectPurchase\<close> and \<open>setDirectPurchaseItem\<close> still act:
  the first empties the cart and unsets the direct-purchase item, the second unsets it,
  the third replaces it by the item built from its argument.
\<close>

theorem direct_purchase_override:
  assumes "directPurchaseItem st = Some d"
  shows "ctx_addItem p quantityArg vars selSize st = st
       \<and> ctx_removeItem productId st = st
       \<and> ctx_updateQuantity productId qty st = st
       \<and> ctx_updateItemSize productId newSize st = st
       \<and> ctx_replaceItem productId p quantityArg vars selSize st = st
       \<and> ctx_items st = [d]
       \<and> ctx_itemCount st = quantity d
       \<and> items (clearCart st) = [] \<and> directPurchaseItem (clearCart st) = None
       \<and> items (clearDirectPurchase st) = items st
       \<and> directPurchaseItem (clearDirectPurchase st) = None
       \<and> items (ctx_setDirectPurchaseItem arg st) = items st
       \<and> (\<exists>d'. directPurchaseItem (ctx_setDirectPurchaseItem arg st) = Some d'
              \<and> product d' = dp_product arg \<and> quantity d' = dp_quantity arg)"
  using assms
  by (simp add: ctx_addItem_def ctx_removeItem_def ctx_updateQuantity_def
      ctx_updateItemSize_def ctx_replaceItem_def ctx_items_def ctx_itemCount_def
      clearCart_def clearDirectPurchase_def ctx_setDirectPurchaseItem_def save_effect_def)

theorem direct_purchase_override_witness:
  "directPurchaseItem st_direct = Some (line cup 4 None)
   \<and> items (ctx_addItem mug (Some 3) None None st_direct) = [line shirt 2 (Some ''M''), line mug 1 None]
   \<and> ctx_items st_direct = [line cup 4 None]
   \<and> ctx_itemCount st_direct = 4
   \<and> itemCount (items st_direct) = 3"
  using direct_purchase_override [of st_direct "line cup 4 None" mug "Some 3" None None]
  by (simp add: st_direct_def line_def itemCount_def)

section \<open>updateQuantity\<close>

text \<open>
  C7. \<open>updateQuantity(productId, quantity)\<close>: for a quantity at most 0 it removes every
  line item whose product ID is \<open>productId\<close>, whatever its selected size, and keeps the
  others in order; for a positive quantity the sequence keeps its length, every line
  item whose product ID is \<open>productId\<close> gets exactly that quantity (its other fields
  unchanged), and every other line item is unchanged.
\<close>

theorem updateQuantity_spec:
  "(qty \<le> 0 \<longrightarrow>
      items (updateQuantity productId qty st) =
        filter (\<lambda>item. item_id (product item) \<noteq> productId) (items st)
      \<and> (\<forall>item \<in> set (items (updateQuantity productId qty st)).
            item_id (product item) \<noteq> productId))
   \<and> (0 < qty \<longrightarrow>
      length (items (updateQuantity productId qty st)) = length (items st)
      \<and> (\<forall>i < length (items st).
            items (updateQuantity productId qty st) ! i =
              (if item_id (product (items st ! i)) = productId
               then (items st ! i)\<lparr>quantity := qty\<rparr>
               else items st ! i)))"
  by (simp add: updateQuantity_def removeItem_def removeItem_upd_def setItems_def
      save_effect_def updateQuantity_upd_def)

theorem updateQuantity_spec_witness:
  "items (updateQuantity ''shirt'' 0 st_two_shirts) = [line mug 1 None]
   \<and> length (items (updateQuantity ''shirt'' 7 st_two_shirts)) = 3
   \<and> items (updateQuantity ''shirt'' 7 st_two_shirts) ! 0 = line shirt 7 (Some ''M'')
   \<and> items (updateQuantity ''shirt'' 7 st_two_shirts) ! 1 = line mug 1 None
   \<and> items (updateQuantity ''shirt'' 7 st_two_shirts) ! 2 = line shirt 7 (Some ''L'')"
proof -
  have its: "items st_two_shirts =
      [line shirt 2 (Some ''M''), line mug 1 None, line shirt 1 (Some ''L'')]"
    by (simp add: st_two_shirts_def mount_def save_effect_def load_cart_def)
  have ids: "item_id (product (line shirt q s)) = ''shirt''"
    "item_id (product (line mug q s)) = ''mug''" for q s
    by (simp_all add: line_def shirt_def mug_def)
  have removed: "items (updateQuantity ''shirt'' 0 st_two_shirts) = [line mug 1 None]"
    using updateQuantity_spec [of 0 "''shirt''" st_two_shirts] by (simp add: its ids)
  from updateQuantity_spec [of 7 "''shirt''" st_two_shirts]
  have len: "length (items (updateQuantity ''shirt'' 7 st_two_shirts)) = 3"
    and nth: "\<And>i. i < 3 \<Longrightarrow> items (updateQuantity ''shirt'' 7 st_two_shirts) ! i =
          (if item_id (product (items st_two_shirts ! i)) = ''shirt''
           then (items st_two_shirts ! i)\<lparr>quantity := 7\<rparr>
           else items st_two_shirts ! i)"
    by (simp_all add: its)
  have "items (updateQuantity ''shirt'' 7 st_two_shirts) ! 0 = line shirt 7 (Some ''M'')"
    using nth [of 0] by (simp add: its ids) (simp add: line_def)
  moreover have "items (updateQuantity ''shirt'' 7 st_two_shirts) ! 1 = line mug 1 None"
    using nth [of 1] by (simp add: its ids)
  moreover have "items (updateQuantity ''shirt'' 7 st_two_shirts) ! 2 = line shirt 7 (Some ''L'')"
    using nth [of 2] by (simp add: its ids) (simp add: line_def)
  ultimately show ?thesis using removed len by simp
qed

section \<open>addItem\<close>

text \<open>
  C8. \<open>addItem(product, quantity, variants?, selectedSize?)\<close>: if the cart holds a line
  item with the identity of the call (the product ID, and the selected size when the
  product has sizes), the quantity of one such line item is incremented by the given
  quantity (1 when omitted) and nothing else changes, its stored variants and size
  included; if it holds none, a line item with the given fields is appended. In
  particular, on a cart without the product \<open>P\<close>, a product without sizes,
  \<open>addItem(P, 2)\<close> then \<open>addItem(P, 3)\<close> gives one line item for \<open>P\<close>, of quantity 5.
\<close>

theorem addItem_spec:
  "((\<exists>item \<in> set (items st).
        item_id (product item) = item_id p \<and> (hasSizes p \<longrightarrow> selectedSize item = selSize)) \<longrightarrow>
      (\<exists>i < length (items st).
          item_id (product (items st ! i)) = item_id p
          \<and> (hasSizes p \<longrightarrow> selectedSize (items st ! i) = selSize)
          \<and> items (addItem p quantityArg vars selSize st) =
              (items st)[i := (items st ! i)
                 \<lparr>quantity := quantity (items st ! i) + default_arg 1 quantityArg\<rparr>]))
   \<and> ((\<forall>item \<in> set (items st).
        \<not> (item_id (product item) = item_id p \<and> (hasSizes p \<longrightarrow> selectedSize item = selSize))) \<longrightarrow>
      items (addItem p quantityArg vars selSize st) =
        items st @ [\<lparr>product = p, quantity = default_arg 1 quantityArg,
                     selectedVariants = vars, selectedSize = selSize\<rparr>])
   \<and> (\<not> hasSizes p \<and> (\<forall>item \<in> set (items st). item_id (product item) \<noteq> item_id p) \<longrightarrow>
      items (addItem p (Some 3) vars' selSize' (addItem p (Some 2) vars selSize st)) =
        items st @ [\<lparr>product = p, quantity = 5, selectedVariants = vars, selectedSize = selSize\<rparr>])"
proof (intro conjI impI)
  assume "\<exists>item \<in> set (items st).
        item_id (product item) = item_id p \<and> (hasSizes p \<longrightarrow> selectedSize item = selSize)"
  then have "findIndex (addItem_match p selSize) (items st) \<noteq> None"
    by (simp add: findIndex_None_iff addItem_match_iff)
  then obtain i where i: "findIndex (addItem_match p selSize) (items st) = Some i" by blast
  then have "i < length (items st)" and "addItem_match p selSize (items st ! i)"
    by (simp_all add: findIndex_Some_iff)
  with i show "\<exists>i < length (items st).
          item_id (product (items st ! i)) = item_id p
          \<and> (hasSizes p \<longrightarrow> selectedSize (items st ! i) = selSize)
          \<and> items (addItem p quantityArg vars selSize st) =
              (items st)[i := (items st ! i)
                 \<lparr>quantity := quantity (items st ! i) + default_arg 1 quantityArg\<rparr>]"
    by (auto simp: addItem_def items_setItems addItem_upd_def addItem_match_iff)
next
  assume "\<forall>item \<in> set (items st).
        \<not> (item_id (product item) = item_id p \<and> (hasSizes p \<longrightarrow> selectedSize item = selSize))"
  then have "findIndex (addItem_match p selSize) (items st) = None"
    by (simp add: findIndex_None_iff addItem_match_iff)
  then show "items (addItem p quantityArg vars selSize st) =
        items st @ [\<lparr>product = p, quantity = default_arg 1 quantityArg,
                     selectedVariants = vars, selectedSize = selSize\<rparr>]"
    by (simp add: addItem_def items_setItems addItem_upd_def)
next
  assume a: "\<not> hasSizes p \<and> (\<forall>item \<in> set (items st). item_id (product item) \<noteq> item_id p)"
  let ?new = "\<lparr>product = p, quantity = 2, selectedVariants = vars, selectedSize = selSize\<rparr>"
  from a have none: "findIndex (addItem_match p selSize) (items st) = None"
    by (simp add: findIndex_None_iff addItem_match_iff)
  then have first: "items (addItem p (Some 2) vars selSize st) = items st @ [?new]"
    by (simp add: addItem_def items_setItems addItem_upd_def default_arg_def)
  from a have "findIndex (addItem_match p selSize') (items st) = None"
    by (simp add: findIndex_None_iff addItem_match_iff)
  then have "findIndex (addItem_match p selSize') (items st @ [?new]) = Some (length (items st))"
    using a by (simp add: findIndex_append_None addItem_match_iff)
  then show "items (addItem p (Some 3) vars' selSize' (addItem p (Some 2) vars selSize st)) =
        items st @ [\<lparr>product = p, quantity = 5, selectedVariants = vars, selectedSize = selSize\<rparr>]"
    by (simp add: addItem_def [of p "Some 3"] items_setItems first addItem_upd_def default_arg_def)
qed

theorem addItem_spec_witness:
  "items (addItem shirt (Some 4) (Some [(''colour'', ''red'')]) (Some ''M'') st_one_shirt) = [line shirt 6 (Some ''M'')]
   \<and> items (addItem shirt None None (Some ''L'') st_one_shirt) = [line shirt 2 (Some ''M''), line shirt 1 (Some ''L'')]
   \<and> items (addItem mug (Some 3) None None (addItem mug (Some 2) None None st_one_shirt))
       = [line shirt 2 (Some ''M''), line mug 5 None]"
proof -
  have its: "items st_one_shirt = [line shirt 2 (Some ''M'')]"
    by (simp add: st_one_shirt_def mount_def save_effect_def load_cart_def)
  have sized: "hasSizes shirt" "\<not> hasSizes mug" by (simp_all add: hasSizes_def shirt_def mug_def)
  have ids: "item_id (product (line shirt q s)) = item_id shirt" "item_id mug \<noteq> item_id shirt"
     "item_id shirt \<noteq> item_id mug" "selectedSize (line shirt q s) = s" for q s
    by (simp_all add: line_def shirt_def mug_def)
  have "items (addItem shirt (Some 4) (Some [(''colour'', ''red'')]) (Some ''M'') st_one_shirt) = [line shirt 6 (Some ''M'')]"
    using addItem_spec [of st_one_shirt shirt "Some ''M''" "Some 4" "Some [(''colour'', ''red'')]"]
    by (simp add: its sized ids default_arg_def) (simp add: line_def)
  moreover have "items (addItem shirt None None (Some ''L'') st_one_shirt) = [line shirt 2 (Some ''M''), line shirt 1 (Some ''L'')]"
    using addItem_spec [of st_one_shirt shirt "Some ''L''" None None]
    by (simp add: its sized ids default_arg_def) (simp add: line_def)
  moreover have "items (addItem mug (Some 3) None None (addItem mug (Some 2) None None st_one_shirt))
       = [line shirt 2 (Some ''M''), line mug 5 None]"
    using addItem_spec [of st_one_shirt mug None None None None None]
    by (simp add: its sized ids) (simp add: line_def)
  ultimately show ?thesis by simp
qed

text \<open>
  C9. \<open>addItem\<close> does not enforce a positive quantity: on the empty cart, outside the
  direct-purchase mode, \<open>addItem(P, -1)\<close> leaves a line item of quantity -1 and an
  \<open>itemCount\<close> of -1, and \<open>addItem(P, 0)\<close> an \<open>itemCount\<close> of 0.
\<close>

theorem addItem_accepts_nonpositive_quantity:
  "directPurchaseItem (mount None) = None
   \<and> items (ctx_addItem p (Some (- 1)) vars selSize (mount None)) =
       [\<lparr>product = p, quantity = - 1, selectedVariants = vars, selectedSize = selSize\<rparr>]
   \<and> ctx_itemCount (ctx_addItem p (Some (- 1)) vars selSize (mount None)) = - 1
   \<and> ctx_itemCount (ctx_addItem p (Some 0) vars selSize (mount None)) = 0"
  by (simp add: mount_def load_cart_def save_effect_def ctx_addItem_def addItem_def setItems_def
      addItem_upd_def default_arg_def ctx_itemCount_def itemCount_def)

section \<open>replaceItem\<close>

text \<open>
  C5, as the code has it. \<open>replaceItem\<close>, when a line item with the identity of the new
  product is left after the removal of the old product: the replacement is then always
  a same-category one (a line item of the new product is in the cart), and the quantity
  of that line item becomes the maximum of its quantity and the captured old quantity,
  which is the quantity of the first line item of the old product, or 1 when there is no
  such line item or when its quantity is 0. Its variants are overwritten when the
  argument is given and kept otherwise; its size is overwritten when a non-empty size is
  given and kept otherwise. Nothing else changes.
\<close>

theorem replaceItem_existing_spec:
  assumes "filteredItems = filter (\<lambda>item. item_id (product item) \<noteq> oldProductId) (items st)"
    and "\<exists>item \<in> set filteredItems.
           item_id (product item) = item_id newProduct
           \<and> (hasSizes newProduct \<longrightarrow> selectedSize item = selSize)"
  shows "sameCategoryReplacement oldProductId newProduct (items st)
     \<and> (\<exists>i < length filteredItems.
           item_id (product (filteredItems ! i)) = item_id newProduct
           \<and> (hasSizes newProduct \<longrightarrow> selectedSize (filteredItems ! i) = selSize)
           \<and> items (replaceItem oldProductId newProduct quantityArg vars selSize st) =
               filteredItems[i := (filteredItems ! i)\<lparr>
                 quantity := max (quantity (filteredItems ! i))
                                 (oldQuantity_of oldProductId (items st)),
                 selectedVariants :=
                   (case vars of Some v \<Rightarrow> Some v
                    | None \<Rightarrow> selectedVariants (filteredItems ! i)),
                 selectedSize :=
                   (if selSize = None \<or> selSize = Some [] then selectedSize (filteredItems ! i)
                    else selSize)\<rparr>])
     \<and> (oldItem_of oldProductId (items st) = None \<longrightarrow>
           oldQuantity_of oldProductId (items st) = 1)
     \<and> (\<forall>a. oldItem_of oldProductId (items st) = Some a \<longrightarrow>
           oldQuantity_of oldProductId (items st) = (if quantity a = 0 then 1 else quantity a))"
proof -
  from assms(2) have "findIndex (addItem_match newProduct selSize) filteredItems \<noteq> None"
    by (simp add: findIndex_None_iff addItem_match_iff)
  then obtain i where i: "findIndex (addItem_match newProduct selSize) filteredItems = Some i"
    by blast
  then have bound: "i < length filteredItems"
    and hit: "addItem_match newProduct selSize (filteredItems ! i)"
    by (simp_all add: findIndex_Some_iff)
  have same: "sameCategoryReplacement oldProductId newProduct (items st)"
    using i found_sameCategory unfolding assms(1) by blast
  have tr: "(if truthy selSize then selSize else x) =
            (if selSize = None \<or> selSize = Some [] then x else selSize)" for x
    by (cases selSize) (simp_all add: truthy_def)
  have "items (replaceItem oldProductId newProduct quantityArg vars selSize st) =
               filteredItems[i := (filteredItems ! i)\<lparr>
                 quantity := max (quantity (filteredItems ! i))
                                 (oldQuantity_of oldProductId (items st)),
                 selectedVariants :=
                   (case vars of Some v \<Rightarrow> Some v
                    | None \<Rightarrow> selectedVariants (filteredItems ! i)),
                 selectedSize :=
                   (if selSize = None \<or> selSize = Some [] then selectedSize (filteredItems ! i)
                    else selSize)\<rparr>]"
    using i same unfolding assms(1)
    by (simp add: replaceItem_def items_setItems replaceItem_upd_def Let_def tr)
  with bound hit same show ?thesis
    using oldQuantity_of_cases [of oldProductId "items st"]
    by (auto simp: addItem_match_iff)
qed

theorem replaceItem_existing_spec_witness:
  "items st_mug_cup = [line mug 3 None, line cup 1 None]
   \<and> sameCategoryReplacement ''mug'' cup (items st_mug_cup)
   \<and> items (replaceItem ''mug'' cup (Some 2) (Some [(''colour'', ''blue'')]) None st_mug_cup) =
       [\<lparr>product = cup, quantity = 3, selectedVariants = Some [(''colour'', ''blue'')],
         selectedSize = None\<rparr>]"
proof -
  have its: "items st_mug_cup = [line mug 3 None, line cup 1 None]"
    by (simp add: st_mug_cup_def mount_def save_effect_def load_cart_def)
  have f: "[line cup 1 None] =
      filter (\<lambda>item. item_id (product item) \<noteq> ''mug'') (items st_mug_cup)"
    by (simp add: its line_def mug_def cup_def)
  have m: "\<exists>item \<in> set [line cup 1 None].
      item_id (product item) = item_id cup \<and> (hasSizes cup \<longrightarrow> selectedSize item = None)"
    by (simp add: line_def)
  have q: "oldQuantity_of ''mug'' [line mug 3 None, line cup 1 None] = 3"
    by (simp add: oldQuantity_of_def oldItem_of_def or_one_def line_def mug_def)
  show ?thesis
    using replaceItem_existing_spec [OF f m, of "Some 2" "Some [(''colour'', ''blue'')]"]
    by (simp add: its q) (simp add: line_def)
qed

text \<open>
  The claim C5 as stated takes the old item's quantity itself: two line items of quantity
  0 (which \<open>addItem\<close> accepts), the first replaced by the product of the second, give
  quantity 1, not the maximum of 0 and 0.
\<close>

theorem replaceItem_existing_counterexample:
  "items st_zero = [line mug 0 None, line cup 0 None]
   \<and> oldItem_of ''mug'' (items st_zero) = Some (line mug 0 None)
   \<and> sameCategoryReplacement ''mug'' cup (items st_zero)
   \<and> items (replaceItem ''mug'' cup None None None st_zero) = [line cup 1 None]
   \<and> quantity (line cup 1 None) \<noteq> max (quantity (line cup 0 None)) (quantity (line mug 0 None))"
  by (simp add: st_zero_def cart_eval)

text \<open>
  C6, as the code has it. \<open>replaceItem\<close>, when no line item with the identity of the new
  product is left after the removal of the old product: a line item of the new product
  with the given variants and size is appended. Its quantity is the captured old quantity
  (the old item's quantity, or 1 when there is no old item or when that quantity is 0) if
  the replacement is same-category, that is, if a line item of the new product is in the
  cart or the old item shares a category with the new product; otherwise it is the
  requested quantity, or 1 when that is omitted or 0. In particular, replacing an item of
  quantity 3 by a product that shares a category with it gives a line item of quantity 3.
\<close>

theorem replaceItem_append_spec:
  assumes "filteredItems = filter (\<lambda>item. item_id (product item) \<noteq> oldProductId) (items st)"
    and "\<forall>item \<in> set filteredItems.
           \<not> (item_id (product item) = item_id newProduct
              \<and> (hasSizes newProduct \<longrightarrow> selectedSize item = selSize))"
  shows "items (replaceItem oldProductId newProduct quantityArg vars selSize st) =
           filteredItems @
             [\<lparr>product = newProduct,
               quantity =
                 (if sameCategoryReplacement oldProductId newProduct (items st)
                  then (case oldItem_of oldProductId (items st) of
                          None \<Rightarrow> 1
                        | Some a \<Rightarrow> if quantity a = 0 then 1 else quantity a)
                  else (case quantityArg of
                          None \<Rightarrow> 1
                        | Some q \<Rightarrow> if q = 0 then 1 else q)),
               selectedVariants = vars,
               selectedSize = selSize\<rparr>]
     \<and> (sameCategoryReplacement oldProductId newProduct (items st) \<longleftrightarrow>
          (\<exists>item \<in> set (items st). item_id (product item) = item_id newProduct)
          \<or> (\<exists>a cs ns. oldItem_of oldProductId (items st) = Some a
                \<and> categoryIds (product a) = Some cs \<and> categoryIds newProduct = Some ns
                \<and> set cs \<inter> set ns \<noteq> {}))
     \<and> (\<forall>a cs ns. oldItem_of oldProductId (items st) = Some a \<and> quantity a = 3
            \<and> categoryIds (product a) = Some cs \<and> categoryIds newProduct = Some ns
            \<and> set cs \<inter> set ns \<noteq> {} \<longrightarrow>
          last (items (replaceItem oldProductId newProduct quantityArg vars selSize st)) =
            \<lparr>product = newProduct, quantity = 3, selectedVariants = vars,
             selectedSize = selSize\<rparr>)"
proof -
  from assms(2) have none: "findIndex (addItem_match newProduct selSize) filteredItems = None"
    by (simp add: findIndex_None_iff addItem_match_iff)
  have app: "items (replaceItem oldProductId newProduct quantityArg vars selSize st) =
           filteredItems @
             [\<lparr>product = newProduct,
               quantity =
                 (if sameCategoryReplacement oldProductId newProduct (items st)
                  then (case oldItem_of oldProductId (items st) of
                          None \<Rightarrow> 1
                        | Some a \<Rightarrow> if quantity a = 0 then 1 else quantity a)
                  else (case quantityArg of
                          None \<Rightarrow> 1
                        | Some q \<Rightarrow> if q = 0 then 1 else q)),
               selectedVariants = vars,
               selectedSize = selSize\<rparr>]"
    using none unfolding assms(1)
    by (simp add: replaceItem_def items_setItems replaceItem_upd_def Let_def
        oldQuantity_of_def or_one_def default_arg_def split: option.splits)
  have same: "sameCategoryReplacement oldProductId newProduct (items st) \<longleftrightarrow>
          (\<exists>item \<in> set (items st). item_id (product item) = item_id newProduct)
          \<or> (\<exists>a cs ns. oldItem_of oldProductId (items st) = Some a
                \<and> categoryIds (product a) = Some cs \<and> categoryIds newProduct = Some ns
                \<and> set cs \<inter> set ns \<noteq> {})"
    unfolding sameCategoryReplacement_iff sharesCategory_iff by simp
  have "last (items (replaceItem oldProductId newProduct quantityArg vars selSize st)) =
            \<lparr>product = newProduct, quantity = 3, selectedVariants = vars,
             selectedSize = selSize\<rparr>"
    if "oldItem_of oldProductId (items st) = Some a" "quantity a = 3"
       "categoryIds (product a) = Some cs" "categoryIds newProduct = Some ns"
       "set cs \<inter> set ns \<noteq> {}" for a cs ns
  proof -
    from that have "sameCategoryReplacement oldProductId newProduct (items st)"
      unfolding same by blast
    with that(1,2) show ?thesis unfolding app by simp
  qed
  with app same show ?thesis by blast
qed

theorem replaceItem_append_spec_witness:
  "items (replaceItem ''mug'' cup None None None st_mug3) = [line cup 3 None]
   \<and> sameCategoryReplacement ''mug'' cup (items st_mug3)
   \<and> items (replaceItem ''mug'' shirt (Some 2) None (Some ''M'') st_mug3) =
       [line shirt 2 (Some ''M'')]
   \<and> \<not> sameCategoryReplacement ''mug'' shirt (items st_mug3)"
proof -
  have its: "items st_mug3 = [line mug 3 None]"
    by (simp add: st_mug3_def mount_def save_effect_def load_cart_def)
  have f: "[] = filter (\<lambda>item. item_id (product item) \<noteq> ''mug'') (items st_mug3)"
    by (simp add: its line_def mug_def)
  have old: "oldItem_of ''mug'' (items st_mug3) = Some (line mug 3 None)"
    by (simp add: its oldItem_of_def line_def mug_def)
  have same: "sameCategoryReplacement ''mug'' cup (items st_mug3)"
    "\<not> sameCategoryReplacement ''mug'' shirt (items st_mug3)"
    by (simp_all add: its cart_eval)
  have "items (replaceItem ''mug'' cup None None None st_mug3) = [line cup 3 None]"
    using replaceItem_append_spec [OF f, of cup None None None, THEN conjunct1]
    unfolding old by (simp add: same line_def)
  moreover have "items (replaceItem ''mug'' shirt (Some 2) None (Some ''M'') st_mug3) =
       [line shirt 2 (Some ''M'')]"
    using replaceItem_append_spec [OF f, of shirt "Some ''M''" "Some 2" None, THEN conjunct1]
    by (simp add: same line_def)
  ultimately show ?thesis using same by simp
qed

text \<open>
  The claim C6 as stated takes the requested quantity itself: a requested quantity of 0,
  in a replacement that is not same-category, gives a line item of quantity 1.
\<close>

theorem replaceItem_append_counterexample:
  "items st_mug3 = [line mug 3 None]
   \<and> \<not> sameCategoryReplacement ''mug'' shirt (items st_mug3)
   \<and> items (replaceItem ''mug'' shirt (Some 0) None (Some ''M'') st_mug3) =
       [line shirt 1 (Some ''M'')]
   \<and> quantity (line shirt 1 (Some ''M'')) \<noteq> 0"
  by (simp add: st_mug3_def cart_eval)

text \<open>
  C10, as the code has it. \<open>replaceItem\<close> with an old product ID that no line item has:
  nothing is removed and the captured old quantity is 1. If moreover no line item has the
  ID of the new product, the replacement is not same-category and a line item of the new
  product is appended (the call is not a no-op), of the requested quantity \<open>q\<close> when
  \<open>q\<close> is not 0, and of quantity 1 when \<open>q\<close> is 0 or omitted.
\<close>

theorem replaceItem_absent_old_spec:
  assumes "\<forall>item \<in> set (items st). item_id (product item) \<noteq> oldProductId"
  shows "oldQuantity_of oldProductId (items st) = 1
     \<and> filter (\<lambda>item. item_id (product item) \<noteq> oldProductId) (items st) = items st
     \<and> ((\<forall>item \<in> set (items st). item_id (product item) \<noteq> item_id newProduct) \<longrightarrow>
          \<not> sameCategoryReplacement oldProductId newProduct (items st)
          \<and> items (replaceItem oldProductId newProduct quantityArg vars selSize st) =
              items st @
                [\<lparr>product = newProduct,
                  quantity = (case quantityArg of None \<Rightarrow> 1
                              | Some q \<Rightarrow> if q = 0 then 1 else q),
                  selectedVariants = vars,
                  selectedSize = selSize\<rparr>]
          \<and> items (replaceItem oldProductId newProduct quantityArg vars selSize st) \<noteq> items st)"
proof -
  from assms have old: "oldItem_of oldProductId (items st) = None"
    by (simp add: oldItem_of_None_iff)
  then have q: "oldQuantity_of oldProductId (items st) = 1"
    by (simp add: oldQuantity_of_def)
  from assms have f: "filter (\<lambda>item. item_id (product item) \<noteq> oldProductId) (items st) = items st"
    by simp
  have "\<not> sameCategoryReplacement oldProductId newProduct (items st)
          \<and> items (replaceItem oldProductId newProduct quantityArg vars selSize st) =
              items st @
                [\<lparr>product = newProduct,
                  quantity = (case quantityArg of None \<Rightarrow> 1
                              | Some q \<Rightarrow> if q = 0 then 1 else q),
                  selectedVariants = vars,
                  selectedSize = selSize\<rparr>]
          \<and> items (replaceItem oldProductId newProduct quantityArg vars selSize st) \<noteq> items st"
    if nb: "\<forall>item \<in> set (items st). item_id (product item) \<noteq> item_id newProduct"
  proof -
    from nb old have ns: "\<not> sameCategoryReplacement oldProductId newProduct (items st)"
      by (simp add: sameCategoryReplacement_iff sharesCategory_iff)
    from nb have none: "findIndex (addItem_match newProduct selSize) (items st) = None"
      by (simp add: findIndex_None_iff addItem_match_iff)
    have "items (replaceItem oldProductId newProduct quantityArg vars selSize st) =
              items st @
                [\<lparr>product = newProduct,
                  quantity = (case quantityArg of None \<Rightarrow> 1
                              | Some q \<Rightarrow> if q = 0 then 1 else q),
                  selectedVariants = vars,
                  selectedSize = selSize\<rparr>]"
      using none ns f
      by (simp add: replaceItem_def items_setItems replaceItem_upd_def Let_def
          or_one_def default_arg_def split: option.splits)
    with ns show ?thesis by simp
  qed
  with q f show ?thesis by blast
qed

theorem replaceItem_absent_old_spec_witness:
  "map (\<lambda>item. item_id (product item)) (items st_one_shirt) = [''shirt'']
   \<and> item_id cup = ''cup''
   \<and> items (replaceItem ''teapot'' cup (Some 4) None None st_one_shirt) =
       [line shirt 2 (Some ''M''), line cup 4 None]
   \<and> items (replaceItem ''teapot'' cup None None None st_one_shirt) =
       [line shirt 2 (Some ''M''), line cup 1 None]"
proof -
  have its: "items st_one_shirt = [line shirt 2 (Some ''M'')]"
    by (simp add: st_one_shirt_def mount_def save_effect_def load_cart_def)
  have a: "\<forall>item \<in> set (items st_one_shirt). item_id (product item) \<noteq> ''teapot''"
    by (simp add: its line_def shirt_def)
  have b: "\<forall>item \<in> set (items st_one_shirt). item_id (product item) \<noteq> item_id cup"
    by (simp add: its line_def shirt_def cup_def)
  have "items (replaceItem ''teapot'' cup (Some 4) None None st_one_shirt) =
       [line shirt 2 (Some ''M''), line cup 4 None]"
    using replaceItem_absent_old_spec [OF a, of cup "Some 4" None None] b
    by (simp add: its) (simp add: line_def)
  moreover have "items (replaceItem ''teapot'' cup None None None st_one_shirt) =
       [line shirt 2 (Some ''M''), line cup 1 None]"
    using replaceItem_absent_old_spec [OF a, of cup None None None] b
    by (simp add: its) (simp add: line_def)
  ultimately show ?thesis by (simp add: its line_def shirt_def cup_def)
qed

text \<open>
  The claim C10 as stated gives the appended line item the quantity \<open>q\<close>: with
  \<open>q = 0\<close> its quantity is 1.
\<close>

theorem replaceItem_absent_old_counterexample:
  "items st_one_shirt = [line shirt 2 (Some ''M'')]
   \<and> oldItem_of ''teapot'' (items st_one_shirt) = None
   \<and> \<not> sameCategoryReplacement ''teapot'' cup (items st_one_shirt)
   \<and> items (replaceItem ''teapot'' cup (Some 0) None None st_one_shirt) =
       [line shirt 2 (Some ''M''), line cup 1 None]
   \<and> quantity (line cup 1 None) \<noteq> 0"
  by (simp add: st_one_shirt_def cart_eval)

section \<open>updateItemSize\<close>




section \<open>Uniqueness of identities\<close>

text \<open>
  C2, as the code has it. Start from a state with an empty cart and run any sequence of
  the exposed operations in which two products passed to \<open>addItem\<close> or \<open>replaceItem\<close>
  with the same ID agree on having a non-empty list of sizes: then no two line items of
  the resulting cart sequence have the same identity, where the identity of a line item
  is its product ID with its selected size if its product has a non-empty list of sizes,
  and its product ID alone otherwise.
\<close>

theorem unique_identities_invariant:
  assumes "\<forall>op \<in> set ops. \<forall>op' \<in> set ops.
             \<forall>p \<in> set (op_products op). \<forall>p' \<in> set (op_products op').
               item_id p = item_id p' \<longrightarrow> hasSizes p = hasSizes p'"
    and "items st = []"
  shows "unique_identities (items (run ops st))"
proof -
  define sized where
    "sized = (\<lambda>i. \<exists>op \<in> set ops. \<exists>p \<in> set (op_products op). item_id p = i \<and> hasSizes p)"
  have "\<forall>op \<in> set ops. \<forall>p \<in> set (op_products op). hasSizes p = sized (item_id p)"
    using assms(1) unfolding sized_def by blast
  moreover have "cart_inv sized (items st)"
    by (simp add: assms(2) cart_inv_Nil)
  ultimately have "cart_inv sized (items (run ops st))"
    by (rule cart_inv_run [rotated])
  then show ?thesis by (simp add: cart_inv_def)
qed

theorem unique_identities_invariant_witness:
  "items (run ops_sample (mount None)) = [line shirt 3 (Some ''M''), line mug 1 None]
   \<and> unique_identities (items (run ops_sample (mount None)))"
proof -
  have a: "\<forall>op \<in> set ops_sample. \<forall>op' \<in> set ops_sample.
             \<forall>p \<in> set (op_products op). \<forall>p' \<in> set (op_products op').
               item_id p = item_id p' \<longrightarrow> hasSizes p = hasSizes p'"
    by (simp add: ops_sample_def shirt_def mug_def)
  have l1: "addItem_upd shirt (Some 1) None (Some ''L'') [] = [line shirt 1 (Some ''L'')]"
    by (simp add: addItem_upd_def default_arg_def line_def)
  have l2: "addItem_upd shirt (Some 2) None (Some ''M'') [line shirt 1 (Some ''L'')]
      = [line shirt 1 (Some ''L''), line shirt 2 (Some ''M'')]"
    by (simp add: addItem_upd_def addItem_match_def hasSizes_def default_arg_def line_def
        shirt_def)
  have l3: "addItem_upd mug None None None [line shirt 1 (Some ''L''), line shirt 2 (Some ''M'')]
      = [line shirt 1 (Some ''L''), line shirt 2 (Some ''M''), line mug 1 None]"
    by (simp add: addItem_upd_def addItem_match_def hasSizes_def default_arg_def line_def
        shirt_def mug_def)
  have fields: "item_id (product (line shirt q s)) = ''shirt''"
    "item_id (product (line mug q s)) = ''mug''" "selectedSize (line p q s) = s"
    "quantity (line p q s) = q" for p q s
    by (simp_all add: line_def shirt_def mug_def)
  have m: "updateItemSize_map ''shirt'' ''M''
        [line shirt 1 (Some ''L''), line shirt 2 (Some ''M''), line mug 1 None]
      = [line shirt 3 (Some ''M''), line shirt 2 (Some ''M''), line mug 1 None]"
    by (simp add: updateItemSize_map_def updateItemSize_step_def upt_rec_numeral fields)
       (simp add: line_def)
  have l4: "updateItemSize_upd ''shirt'' ''M''
        [line shirt 1 (Some ''L''), line shirt 2 (Some ''M''), line mug 1 None]
      = [line shirt 3 (Some ''M''), line mug 1 None]"
    unfolding updateItemSize_upd_def m
    by (simp add: firstOccurrence_def upt_rec_numeral fields)
  have c: "items (run ops_sample (mount None)) = [line shirt 3 (Some ''M''), line mug 1 None]"
    unfolding ops_sample_def run_Cons run_Nil perform.simps
    by (simp add: ctx_updateItemSize_normal ctx_addItem_normal mount_None l1 l2 l3 l4)
  from unique_identities_invariant [OF a mount_None(1)] c show ?thesis by simp
qed

text \<open>
  The claim C2 as stated is about every sequence of operations. The operations take the
  product as an object of the caller: when a product that the cart holds with two sizes
  is passed to \<open>replaceItem\<close> once more as an object without its list of sizes,
  \<open>replaceItem\<close> matches by product ID alone and overwrites the size of the first line
  item, and the cart holds two line items of the same product and size.
\<close>

theorem unique_identities_counterexample:
  "items (run ops_duplicate (mount None)) =
     [line shirt 1 (Some ''M''), line shirt 1 (Some ''M'')]
   \<and> \<not> unique_identities (items (run ops_duplicate (mount None)))"
proof -
  have l1: "addItem_upd shirt (Some 1) None (Some ''L'') [] = [line shirt 1 (Some ''L'')]"
    by (simp add: addItem_upd_def default_arg_def line_def)
  have l2: "addItem_upd shirt (Some 1) None (Some ''M'') [line shirt 1 (Some ''L'')]
      = [line shirt 1 (Some ''L''), line shirt 1 (Some ''M'')]"
    by (simp add: addItem_upd_def addItem_match_def hasSizes_def default_arg_def line_def
        shirt_def)
  have l3: "replaceItem_upd ''teapot'' shirt_summary None None (Some ''M'')
        [line shirt 1 (Some ''L''), line shirt 1 (Some ''M'')]
      = [line shirt 1 (Some ''M''), line shirt 1 (Some ''M'')]"
    by (simp add: replaceItem_upd_def addItem_match_def hasSizes_def default_arg_def truthy_def
        oldQuantity_of_def oldItem_of_def sameCategoryReplacement_def
        line_def shirt_def shirt_summary_def)
  have "items (run ops_duplicate (mount None)) =
      [line shirt 1 (Some ''M''), line shirt 1 (Some ''M'')]"
    unfolding ops_duplicate_def run_Cons run_Nil perform.simps
    by (simp add: ctx_replaceItem_normal ctx_addItem_normal mount_None l1 l2 l3)
  then show ?thesis
    by (simp add: unique_identities_def)
qed

end
